theory Spec2Isabelle
  imports Complex_Main "HOL-Library.Sublist" "HOL-Library.AList" "HOL-Library.Multiset"
begin

section \<open>The ideas store (context/ideas-context)\<close>

subsection \<open>Data model\<close>

text \<open>
  \<^verbatim>\<open>export type IdeaCategory = 'App' | 'Content' | 'Random';\<close>
\<close>

datatype IdeaCategory = App | Content | Random

text \<open>
  \<^verbatim>\<open>export type Idea = { id: string; text: string; category: IdeaCategory;
                       isPinned?: boolean; isArchived?: boolean; createdAt: number };\<close>
  The two optional flags are \<open>bool option\<close>: \<open>None\<close> is a key that is absent or
  holds \<open>undefined\<close> (the store reads the flags by property access only, which does
  not tell the two apart). \<open>createdAt\<close> is produced by \<open>Date.now()\<close>, an integer
  number of milliseconds, and is an \<open>int\<close> here. The field names \<open>id\<close> and
  \<open>text\<close> are prefixed, since both are taken in Isabelle.
\<close>

record Idea =
  idea_id :: string
  idea_text :: string
  category :: IdeaCategory
  isPinned :: "bool option"
  isArchived :: "bool option"
  createdAt :: int

text \<open>
  The \<open>updates\<close> argument of \<open>updateIdea\<close>. Every key of the declared type is
  optional; \<open>None\<close> is an absent key, which the spread leaves alone. A present flag
  may hold \<open>undefined\<close> (the inner \<open>None\<close>); a present \<open>text\<close> or \<open>category\<close>
  holds a value of its type, as \<open>Idea\<close> requires of the result. The declared type
  has no \<open>id\<close> and no \<open>createdAt\<close> key, but an object that carries them can be
  passed (structural typing), so both are part of the model.
\<close>

record Updates =
  upd_id :: "string option"
  upd_text :: "string option"
  upd_category :: "IdeaCategory option"
  upd_isPinned :: "bool option option"
  upd_isArchived :: "bool option option"
  upd_createdAt :: "int option"

subsection \<open>Operations\<close>

text \<open>The operator \<^verbatim>\<open>flag ?? false\<close> on an optional boolean.\<close>

definition orFalse :: "bool option \<Rightarrow> bool" where
  "orFalse flag = (case flag of None \<Rightarrow> False | Some b \<Rightarrow> b)"

text \<open>
  Each operation hands \<open>setIdeas\<close> a function of the previous collection; the
  definitions below are those functions.

  \<^verbatim>\<open>const removeIdea = (id) => { setIdeas((prev) => prev.filter((idea) => idea.id !== id)); };\<close>
\<close>

definition removeIdea :: "string \<Rightarrow> Idea list \<Rightarrow> Idea list" where
  "removeIdea i prev = filter (\<lambda>idea. idea_id idea \<noteq> i) prev"

text \<open>\<^verbatim>\<open>const clearIdeas = () => { setIdeas([]); };\<close>\<close>

definition clearIdeas :: "Idea list \<Rightarrow> Idea list" where
  "clearIdeas prev = []"

text \<open>The spread \<^verbatim>\<open>{ ...idea, ...updates }\<close>: every key present in \<open>updates\<close> wins.\<close>

definition spreadUpdates :: "Idea \<Rightarrow> Updates \<Rightarrow> Idea" where
  "spreadUpdates idea u =
     \<lparr> idea_id = (case upd_id u of None \<Rightarrow> idea_id idea | Some v \<Rightarrow> v),
       idea_text = (case upd_text u of None \<Rightarrow> idea_text idea | Some v \<Rightarrow> v),
       category = (case upd_category u of None \<Rightarrow> category idea | Some v \<Rightarrow> v),
       isPinned = (case upd_isPinned u of None \<Rightarrow> isPinned idea | Some v \<Rightarrow> v),
       isArchived = (case upd_isArchived u of None \<Rightarrow> isArchived idea | Some v \<Rightarrow> v),
       createdAt = (case upd_createdAt u of None \<Rightarrow> createdAt idea | Some v \<Rightarrow> v) \<rparr>"

text \<open>
  \<^verbatim>\<open>
  const updateIdea = (id, updates) => {
    setIdeas((prev) =>
      prev.map((idea) => {
        if (idea.id === id) {
          return { ...idea, ...updates, id: idea.id, createdAt: idea.createdAt };
        }
        return idea;
      }));
  };
  \<close>
\<close>

definition updateIdea :: "string \<Rightarrow> Updates \<Rightarrow> Idea list \<Rightarrow> Idea list" where
  "updateIdea i u prev =
     map (\<lambda>idea.
            if idea_id idea = i
            then (spreadUpdates idea u) \<lparr> idea_id := idea_id idea, createdAt := createdAt idea \<rparr>
            else idea) prev"

text \<open>
  \<^verbatim>\<open>
  const togglePinned = (id) => {
    setIdeas((prev) =>
      prev.map((idea) => {
        if (idea.id === id) {
          const newPinnedState = !(idea.isPinned ?? false);
          return { ...idea,
                   isPinned: newPinnedState,
                   isArchived: newPinnedState ? false : idea.isArchived,
                   id: idea.id, createdAt: idea.createdAt };
        }
        return idea;
      }));
  };
  \<close>
\<close>

definition togglePinned :: "string \<Rightarrow> Idea list \<Rightarrow> Idea list" where
  "togglePinned i prev =
     map (\<lambda>idea.
            if idea_id idea = i
            then (let newPinnedState = \<not> orFalse (isPinned idea)
                  in idea \<lparr> isPinned := Some newPinnedState,
                            isArchived := (if newPinnedState then Some False else isArchived idea),
                            idea_id := idea_id idea,
                            createdAt := createdAt idea \<rparr>)
            else idea) prev"

text \<open>
  \<^verbatim>\<open>
  const toggleArchived = (id) => {
    setIdeas((prev) =>
      prev.map((idea) => {
        if (idea.id === id) {
          const newArchivedState = !(idea.isArchived ?? false);
          return { ...idea,
                   isArchived: newArchivedState,
                   isPinned: newArchivedState ? false : idea.isPinned,
                   id: idea.id, createdAt: idea.createdAt };
        }
        return idea;
      }));
  };
  \<close>
\<close>

definition toggleArchived :: "string \<Rightarrow> Idea list \<Rightarrow> Idea list" where
  "toggleArchived i prev =
     map (\<lambda>idea.
            if idea_id idea = i
            then (let newArchivedState = \<not> orFalse (isArchived idea)
                  in idea \<lparr> isArchived := Some newArchivedState,
                            isPinned := (if newArchivedState then Some False else isPinned idea),
                            idea_id := idea_id idea,
                            createdAt := createdAt idea \<rparr>)
            else idea) prev"

text \<open>A call of one of the two toggle operations, and a sequence of such calls.\<close>

datatype ToggleCall = TogglePinned string | ToggleArchived string

fun applyToggle :: "ToggleCall \<Rightarrow> Idea list \<Rightarrow> Idea list" where
  "applyToggle (TogglePinned i) prev = togglePinned i prev"
| "applyToggle (ToggleArchived i) prev = toggleArchived i prev"

definition applyToggles :: "ToggleCall list \<Rightarrow> Idea list \<Rightarrow> Idea list" where
  "applyToggles calls prev = fold applyToggle calls prev"

text \<open>An idea is both pinned and archived.\<close>

definition pinnedAndArchived :: "Idea \<Rightarrow> bool" where
  "pinnedAndArchived idea \<longleftrightarrow> isPinned idea = Some True \<and> isArchived idea = Some True"

definition exclusive :: "Idea list \<Rightarrow> bool" where
  "exclusive ideas \<longleftrightarrow> list_all (\<lambda>idea. \<not> pinnedAndArchived idea) ideas"


subsection \<open>Hydration\<close>

text \<open>
  What \<open>JSON.parse\<close> returns is typed \<open>any\<close>: the stored text decides its shape, so
  the hydration is modelled on JSON values. An object is its list of properties, read
  by key (\<open>map_of\<close>); the order of the keys is not observed by any code here. Every
  number that \<open>JSON.parse\<close> can produce is a finite double, hence a rational.
\<close>

datatype json =
    JNull
  | JBool bool
  | JNum rat
  | JStr string
  | JArr "json list"
  | JObj "(string \<times> json) list"

datatype jsError = TypeError | SyntaxError | StorageError

text \<open>The decimal numeral of an index, the key of an array element or a string character.\<close>

fun decimal :: "nat \<Rightarrow> string" where
  "decimal n = (if n < 10 then [char_of (48 + n)]
                else decimal (n div 10) @ [char_of (48 + n mod 10)])"

declare decimal.simps [simp del]

text \<open>
  The own enumerable properties that a spread \<^verbatim>\<open>{ ...idea }\<close> copies: those of an
  object, the indexed elements of an array, the indexed characters of a string, and
  nothing for \<open>null\<close>, a boolean or a number.
\<close>

fun ownProps :: "json \<Rightarrow> (string \<times> json) list" where
  "ownProps (JObj kvs) = kvs"
| "ownProps (JArr xs) = zip (map decimal [0..<length xs]) xs"
| "ownProps (JStr s) = zip (map decimal [0..<length s]) (map (\<lambda>c. JStr [c]) s)"
| "ownProps JNull = []"
| "ownProps (JBool b) = []"
| "ownProps (JNum n) = []"

text \<open>The value of a key among the own properties, \<open>None\<close> when the key is absent.\<close>

definition fieldOf :: "json \<Rightarrow> string \<Rightarrow> json option" where
  "fieldOf v k = map_of (ownProps v) k"

text \<open>
  The property reads \<^verbatim>\<open>idea.isPinned\<close> and \<^verbatim>\<open>idea.isArchived\<close>: a \<open>TypeError\<close> on
  \<open>null\<close>, the value of the key on an object (\<open>None\<close> is \<open>undefined\<close>), and
  \<open>undefined\<close> on an array, a string, a number or a boolean, none of which has or
  inherits a property of either name.
\<close>

fun getProp :: "json \<Rightarrow> string \<Rightarrow> jsError + json option" where
  "getProp JNull k = Inl TypeError"
| "getProp (JObj kvs) k = Inr (map_of kvs k)"
| "getProp (JArr xs) k = Inr None"
| "getProp (JStr s) k = Inr None"
| "getProp (JBool b) k = Inr None"
| "getProp (JNum n) k = Inr None"

text \<open>\<^verbatim>\<open>v ?? false\<close>: \<open>false\<close> when \<open>v\<close> is \<open>undefined\<close> or \<open>null\<close>, and \<open>v\<close> otherwise.\<close>

fun nullishFalse :: "json option \<Rightarrow> json" where
  "nullishFalse None = JBool False"
| "nullishFalse (Some JNull) = JBool False"
| "nullishFalse (Some v) = v"

text \<open>
  \<^verbatim>\<open>(idea) => ({ ...idea, isPinned: idea.isPinned ?? false, isArchived: idea.isArchived ?? false })\<close>
  A key of the literal that the spread has already set keeps its place and takes the
  new value; a new key goes to the end (\<open>AList.update\<close>).
\<close>

definition normalizeIdea :: "json \<Rightarrow> jsError + json" where
  "normalizeIdea idea =
     (case getProp idea ''isPinned'' of
        Inl e \<Rightarrow> Inl e
      | Inr p \<Rightarrow>
          (case getProp idea ''isArchived'' of
             Inl e \<Rightarrow> Inl e
           | Inr a \<Rightarrow>
               Inr (JObj (AList.update ''isArchived'' (nullishFalse a)
                           (AList.update ''isPinned'' (nullishFalse p) (ownProps idea))))))"

text \<open>
  The object that the callback returns when it does not throw, written with
  \<open>fieldOf\<close>; \<open>normalizeIdea_normalizedIdea\<close> below shows that it is the one.
\<close>

definition normalizedIdea :: "json \<Rightarrow> json" where
  "normalizedIdea e =
     JObj (AList.update ''isArchived'' (nullishFalse (fieldOf e ''isArchived''))
            (AList.update ''isPinned'' (nullishFalse (fieldOf e ''isPinned''))
              (ownProps e)))"

text \<open>\<^verbatim>\<open>parsed.map(...)\<close>: the first callback that throws ends the whole map.\<close>

fun mapThrowing :: "('a \<Rightarrow> jsError + 'b) \<Rightarrow> 'a list \<Rightarrow> jsError + 'b list" where
  "mapThrowing f [] = Inr []"
| "mapThrowing f (x # xs) =
     (case f x of
        Inl e \<Rightarrow> Inl e
      | Inr y \<Rightarrow> (case mapThrowing f xs of Inl e \<Rightarrow> Inl e | Inr ys \<Rightarrow> Inr (y # ys)))"

text \<open>
  The text held by the storage slot, as \<open>JSON.parse\<close> sees it: it throws a
  \<open>SyntaxError\<close> or returns a value.
\<close>

datatype storedText = Malformed | Wellformed json

fun JSON_parse :: "storedText \<Rightarrow> jsError + json" where
  "JSON_parse Malformed = Inl SyntaxError"
| "JSON_parse (Wellformed v) = Inr v"

fun isArray :: "json \<Rightarrow> bool" where
  "isArray (JArr xs) = True"
| "isArray v = False"

fun elements :: "json \<Rightarrow> json list" where
  "elements (JArr xs) = xs"
| "elements v = []"

subsection \<open>The provider's lifecycle\<close>

text \<open>\<^verbatim>\<open>const STORAGE_KEY = 'idea-notes:ideas:v1';\<close>\<close>

definition STORAGE_KEY :: string where
  "STORAGE_KEY = ''idea-notes:ideas:v1''"

text \<open>
  The provider's state: the \<open>ideas\<close> of \<open>useState\<close> and the two refs. The state
  holds what the hydration put there (the annotation \<open>Idea[]\<close> is not checked when
  the program runs), so it is a list of JSON values here. \<open>renderPending\<close> says that
  \<open>ideas\<close> was set since the effects last ran: React runs the autosave effect, whose
  dependency is \<open>[ideas]\<close>, after the next render, and once after the first render.
  \<open>setItemCalls\<close> records every call \<open>AsyncStorage.setItem(key, JSON.stringify(ideas))\<close>
  as the key and the collection serialised; a call that fails is recorded too, since
  the failure is caught and changes nothing.
\<close>

record Provider =
  ideas :: "json list"
  hasHydrated :: bool
  isMounted :: bool
  renderPending :: bool
  setItemCalls :: "(string \<times> json list) list"

text \<open>\<^verbatim>\<open>useState<Idea[]>([])\<close>, \<^verbatim>\<open>useRef(false)\<close>, \<^verbatim>\<open>useRef(true)\<close>, before the first effects.\<close>

definition initialProvider :: Provider where
  "initialProvider =
     \<lparr> ideas = [], hasHydrated = False, isMounted = True, renderPending = True,
       setItemCalls = [] \<rparr>"

text \<open>\<open>setIdeas\<close> with an updater function: the state changes and a render is due.\<close>

definition setIdeas :: "(json list \<Rightarrow> json list) \<Rightarrow> Provider \<Rightarrow> Provider" where
  "setIdeas f s = s \<lparr> ideas := f (ideas s), renderPending := True \<rparr>"

text \<open>
  \<^verbatim>\<open>
  const loadIdeas = async () => {
    try {
      const data = await AsyncStorage.getItem(STORAGE_KEY);
      if (data !== null) {
        const parsed = JSON.parse(data);
        if (Array.isArray(parsed) && isMountedRef.current) {
          const normalized = parsed.map((idea) => ({ ... }));
          setIdeas(normalized);
        }
      }
    } catch (error) { ... console.warn ... }
    finally { hasHydratedRef.current = true; }
  };
  \<close>
  The argument is what \<open>getItem\<close> settles with: a rejection, \<open>null\<close> (\<open>None\<close>), or
  the stored text. \<open>loadIdeasTry\<close> is the \<open>try\<close> block, \<open>loadIdeas\<close> adds the
  \<open>catch\<close> (the state as it was) and the \<open>finally\<close>.
\<close>

definition loadIdeasTry :: "jsError + storedText option \<Rightarrow> Provider \<Rightarrow> jsError + Provider" where
  "loadIdeasTry got s =
     (case got of
        Inl e \<Rightarrow> Inl e
      | Inr None \<Rightarrow> Inr s
      | Inr (Some data) \<Rightarrow>
          (case JSON_parse data of
             Inl e \<Rightarrow> Inl e
           | Inr parsed \<Rightarrow>
               if isArray parsed \<and> isMounted s
               then (case mapThrowing normalizeIdea (elements parsed) of
                       Inl e \<Rightarrow> Inl e
                     | Inr normalized \<Rightarrow> Inr (setIdeas (\<lambda>prev. normalized) s))
               else Inr s))"

definition loadIdeas :: "jsError + storedText option \<Rightarrow> Provider \<Rightarrow> Provider" where
  "loadIdeas got s =
     (case loadIdeasTry got s of
        Inl e \<Rightarrow> s
      | Inr s' \<Rightarrow> s') \<lparr> hasHydrated := True \<rparr>"

text \<open>
  \<^verbatim>\<open>
  useEffect(() => {
    if (!hasHydratedRef.current) { return; }
    const saveIdeas = async () => {
      try { await AsyncStorage.setItem(STORAGE_KEY, JSON.stringify(ideas)); }
      catch (error) { ... console.warn ... }
    };
    saveIdeas();
  }, [ideas]);
  \<close>
\<close>

definition autosave :: "Provider \<Rightarrow> Provider" where
  "autosave s =
     (if \<not> hasHydrated s then s
      else s \<lparr> setItemCalls := setItemCalls s @ [(STORAGE_KEY, ideas s)] \<rparr>)"

text \<open>
  The events of the provider's life: a render is committed and the effects that are
  due run; one of the operations calls \<open>setIdeas\<close>; the load started by the mount
  effect finishes; the provider is unmounted (the cleanup of the mount effect), after
  which React renders it no more and drops its state updates.
\<close>

datatype event =
    Commit
  | SetIdeas "json list \<Rightarrow> json list"
  | LoadFinished "jsError + storedText option"
  | Unmount

fun step :: "event \<Rightarrow> Provider \<Rightarrow> Provider" where
  "step Commit s =
     (if isMounted s \<and> renderPending s then (autosave s) \<lparr> renderPending := False \<rparr> else s)"
| "step (SetIdeas f) s = (if isMounted s then setIdeas f s else s)"
| "step (LoadFinished got) s = loadIdeas got s"
| "step Unmount s = s \<lparr> isMounted := False \<rparr>"

definition run :: "event list \<Rightarrow> Provider \<Rightarrow> Provider" where
  "run evs s = fold step evs s"

section \<open>The inbox projection (app/(tabs)/explore)\<close>

subsection \<open>Strings\<close>

text \<open>
  A JavaScript string is a sequence of UTF-16 code units; a \<open>char\<close> is a code unit
  below 256, so the strings of the model are the Latin-1 strings. On these,
  \<open>\s\<close> and \<open>trim\<close> know the white space characters U+0009 to U+000D, U+0020 and
  U+00A0, and \<open>toLowerCase\<close> maps A to Z and U+00C0 to U+00DE, without U+00D7,
  to the code unit 32 above.
\<close>

definition isSpace :: "char \<Rightarrow> bool" where
  "isSpace c = (let n = (of_char c :: nat) in (9 \<le> n \<and> n \<le> 13) \<or> n = 32 \<or> n = 160)"

definition lowerChar :: "char \<Rightarrow> char" where
  "lowerChar c =
     (let n = (of_char c :: nat)
      in if (65 \<le> n \<and> n \<le> 90) \<or> (192 \<le> n \<and> n \<le> 222 \<and> n \<noteq> 215)
         then char_of (n + 32) else c)"

definition toLowerCase :: "string \<Rightarrow> string" where
  "toLowerCase s = map lowerChar s"

definition trim :: "string \<Rightarrow> string" where
  "trim s = rev (dropWhile isSpace (rev (dropWhile isSpace s)))"

text \<open>\<^verbatim>\<open>s.replace(/\s+/g, ' ')\<close>: every maximal run of white space becomes one space.\<close>

function collapseSpaces :: "string \<Rightarrow> string" where
  "collapseSpaces [] = []"
| "collapseSpaces (c # cs) =
     (if isSpace c then CHR '' '' # collapseSpaces (dropWhile isSpace cs)
      else c # collapseSpaces cs)"
  by pat_completeness auto
termination
  by (relation "measure length") (auto simp: length_dropWhile_le less_Suc_eq_le)

text \<open>\<^verbatim>\<open>s.includes(q)\<close>: \<open>q\<close> starts at some position of \<open>s\<close>.\<close>

fun includesStr :: "string \<Rightarrow> string \<Rightarrow> bool" where
  "includesStr [] q = (q = [])"
| "includesStr (c # cs) q = (take (length q) (c # cs) = q \<or> includesStr cs q)"

subsection \<open>The derived list\<close>

text \<open>
  \<^verbatim>\<open>arr.sort(compareFn)\<close> is a stable sort (ECMAScript 2019 and later): \<open>a\<close> comes
  after \<open>b\<close> when \<open>compareFn(a, b) > 0\<close>, and elements that compare equal keep their
  order. It is modelled as insertion from the right, which puts an element in front
  of the first one it does not compare greater than.
\<close>

fun insertBy :: "('a \<Rightarrow> 'a \<Rightarrow> int) \<Rightarrow> 'a \<Rightarrow> 'a list \<Rightarrow> 'a list" where
  "insertBy compareFn x [] = [x]"
| "insertBy compareFn x (y # ys) =
     (if compareFn x y > 0 then y # insertBy compareFn x ys else x # y # ys)"

definition arraySort :: "('a \<Rightarrow> 'a \<Rightarrow> int) \<Rightarrow> 'a list \<Rightarrow> 'a list" where
  "arraySort compareFn xs = foldr (insertBy compareFn) xs []"

datatype SortOrder = Newest | Oldest

text \<open>
  \<^verbatim>\<open>
  if (showArchived) { filtered = filtered.filter((item) => item.isArchived === true); }
  else { filtered = filtered.filter((item) => item.isArchived !== true); }
  \<close>
\<close>

definition archiveFilter :: "bool \<Rightarrow> Idea list \<Rightarrow> Idea list" where
  "archiveFilter showArchived filtered =
     (if showArchived then filter (\<lambda>item. isArchived item = Some True) filtered
      else filter (\<lambda>item. isArchived item \<noteq> Some True) filtered)"

text \<open>
  \<^verbatim>\<open>
  if (searchQuery.trim()) {
    const normalizedQuery = searchQuery.trim().toLowerCase().replace(/\s+/g, ' ');
    filtered = filtered.filter((item) => {
      const normalizedText = item.text.toLowerCase().replace(/\s+/g, ' ');
      return normalizedText.includes(normalizedQuery);
    });
  }
  \<close>
  A string is truthy when it is not empty.
\<close>

definition searchFilter :: "string \<Rightarrow> Idea list \<Rightarrow> Idea list" where
  "searchFilter searchQuery filtered =
     (if trim searchQuery \<noteq> []
      then (let normalizedQuery = collapseSpaces (toLowerCase (trim searchQuery))
            in filter (\<lambda>item.
                 let normalizedText = collapseSpaces (toLowerCase (idea_text item))
                 in includesStr normalizedText normalizedQuery) filtered)
      else filtered)"

text \<open>
  \<^verbatim>\<open>
  if (selectedCategory !== 'All') {
    filtered = filtered.filter((item) => item.category === selectedCategory);
  }
  \<close>
  \<open>selectedCategory\<close> is \<open>IdeaCategory | 'All'\<close>; \<open>None\<close> is \<open>'All'\<close>.
\<close>

definition categoryFilter :: "IdeaCategory option \<Rightarrow> Idea list \<Rightarrow> Idea list" where
  "categoryFilter selectedCategory filtered =
     (case selectedCategory of
        None \<Rightarrow> filtered
      | Some c \<Rightarrow> filter (\<lambda>item. category item = c) filtered)"

text \<open>
  \<^verbatim>\<open>
  return [...filtered].sort((a, b) =>
    sortOrder === 'newest' ? b.createdAt - a.createdAt : a.createdAt - b.createdAt);
  \<close>
\<close>

definition compareCreatedAt :: "SortOrder \<Rightarrow> Idea \<Rightarrow> Idea \<Rightarrow> int" where
  "compareCreatedAt sortOrder a b =
     (if sortOrder = Newest then createdAt b - createdAt a else createdAt a - createdAt b)"

definition sortIdeas :: "SortOrder \<Rightarrow> Idea list \<Rightarrow> Idea list" where
  "sortIdeas sortOrder filtered = arraySort (compareCreatedAt sortOrder) filtered"

definition visibleIdeas ::
  "Idea list \<Rightarrow> bool \<Rightarrow> string \<Rightarrow> IdeaCategory option \<Rightarrow> SortOrder \<Rightarrow> Idea list" where
  "visibleIdeas allIdeas showArchived searchQuery selectedCategory sortOrder =
     sortIdeas sortOrder
       (categoryFilter selectedCategory
         (searchFilter searchQuery
           (archiveFilter showArchived allIdeas)))"


section \<open>Properties of the store operations\<close>

lemma orFalse_simps [simp]: "orFalse None = False" "orFalse (Some b) = b"
  by (simp_all add: orFalse_def)

lemma exclusive_togglePinned: "exclusive prev \<Longrightarrow> exclusive (togglePinned i prev)"
  by (induction prev) (simp_all add: exclusive_def togglePinned_def pinnedAndArchived_def Let_def)

lemma exclusive_toggleArchived: "exclusive prev \<Longrightarrow> exclusive (toggleArchived i prev)"
  by (induction prev) (simp_all add: exclusive_def toggleArchived_def pinnedAndArchived_def Let_def)

lemma exclusive_applyToggle: "exclusive prev \<Longrightarrow> exclusive (applyToggle c prev)"
  by (cases c) (simp_all add: exclusive_togglePinned exclusive_toggleArchived)

text \<open>
  C1. If no idea of a collection is pinned and archived at once, then after any
  sequence of \<open>togglePinned\<close> and \<open>toggleArchived\<close> calls, with any ids, no idea of the
  resulting collection is pinned and archived at once.
\<close>

theorem toggles_keep_exclusive:
  "exclusive prev \<Longrightarrow> exclusive (applyToggles calls prev)"
  unfolding applyToggles_def
  by (induction calls arbitrary: prev) (simp_all add: exclusive_applyToggle)

text \<open>
  The scenario "create then toggle": a fresh idea is pinned, then archived, and ends
  archived and not pinned.
\<close>

theorem toggles_keep_exclusive_witness:
  "exclusive [\<lparr> idea_id = ''1-a'', idea_text = ''Ship v1'', category = App,
                isPinned = Some False, isArchived = Some False, createdAt = 1 \<rparr>]
   \<and> exclusive (applyToggles [TogglePinned ''1-a'', ToggleArchived ''1-a'']
        [\<lparr> idea_id = ''1-a'', idea_text = ''Ship v1'', category = App,
           isPinned = Some False, isArchived = Some False, createdAt = 1 \<rparr>])
   \<and> applyToggles [TogglePinned ''1-a'', ToggleArchived ''1-a'']
        [\<lparr> idea_id = ''1-a'', idea_text = ''Ship v1'', category = App,
           isPinned = Some False, isArchived = Some False, createdAt = 1 \<rparr>]
     = [\<lparr> idea_id = ''1-a'', idea_text = ''Ship v1'', category = App,
          isPinned = Some False, isArchived = Some True, createdAt = 1 \<rparr>]"
proof -
  have h: "exclusive [\<lparr> idea_id = ''1-a'', idea_text = ''Ship v1'', category = App,
                isPinned = Some False, isArchived = Some False, createdAt = 1 \<rparr>]"
    by (simp add: exclusive_def pinnedAndArchived_def)
  show ?thesis
    using h toggles_keep_exclusive [OF h, of "[TogglePinned ''1-a'', ToggleArchived ''1-a'']"]
    by (simp add: applyToggles_def togglePinned_def toggleArchived_def)
qed

text \<open>
  C2. For an idea of the collection whose id is the one given, \<open>togglePinned\<close>
  negates \<open>isPinned\<close> (read with \<open>?? false\<close>, an absent flag counting as false); it
  sets \<open>isArchived\<close> to false when the new \<open>isPinned\<close> is true and leaves
  \<open>isArchived\<close> as it was when the new \<open>isPinned\<close> is false. \<open>toggleArchived\<close> does
  the same with the two flags exchanged.
\<close>

theorem toggle_effect:
  assumes "k < length prev" and "idea_id (prev ! k) = i"
  shows "isPinned (togglePinned i prev ! k) = Some (\<not> orFalse (isPinned (prev ! k)))
       \<and> isArchived (togglePinned i prev ! k) =
           (if \<not> orFalse (isPinned (prev ! k)) then Some False else isArchived (prev ! k))
       \<and> isArchived (toggleArchived i prev ! k) = Some (\<not> orFalse (isArchived (prev ! k)))
       \<and> isPinned (toggleArchived i prev ! k) =
           (if \<not> orFalse (isArchived (prev ! k)) then Some False else isPinned (prev ! k))"
  using assms by (simp add: togglePinned_def toggleArchived_def Let_def)

theorem toggle_effect_witness:
  "(0::nat) < length [\<lparr> idea_id = ''n1'', idea_text = ''old note'', category = Random,
                        isPinned = None, isArchived = Some True, createdAt = 5 \<rparr>]
   \<and> idea_id ([\<lparr> idea_id = ''n1'', idea_text = ''old note'', category = Random,
                  isPinned = None, isArchived = Some True, createdAt = 5 \<rparr>] ! 0) = ''n1''
   \<and> isPinned (togglePinned ''n1''
        [\<lparr> idea_id = ''n1'', idea_text = ''old note'', category = Random,
           isPinned = None, isArchived = Some True, createdAt = 5 \<rparr>] ! 0) = Some True
   \<and> isArchived (togglePinned ''n1''
        [\<lparr> idea_id = ''n1'', idea_text = ''old note'', category = Random,
           isPinned = None, isArchived = Some True, createdAt = 5 \<rparr>] ! 0) = Some False
   \<and> isArchived (toggleArchived ''n1''
        [\<lparr> idea_id = ''n1'', idea_text = ''old note'', category = Random,
           isPinned = None, isArchived = Some True, createdAt = 5 \<rparr>] ! 0) = Some False
   \<and> isPinned (toggleArchived ''n1''
        [\<lparr> idea_id = ''n1'', idea_text = ''old note'', category = Random,
           isPinned = None, isArchived = Some True, createdAt = 5 \<rparr>] ! 0) = None"
proof -
  have h1: "(0::nat) < length [\<lparr> idea_id = ''n1'', idea_text = ''old note'', category = Random,
                        isPinned = None, isArchived = Some True, createdAt = 5 \<rparr>]"
    by simp
  have h2: "idea_id ([\<lparr> idea_id = ''n1'', idea_text = ''old note'', category = Random,
                  isPinned = None, isArchived = Some True, createdAt = 5 \<rparr>] ! 0) = ''n1''"
    by simp
  show ?thesis
    using h1 h2 toggle_effect [OF h1 h2] by simp
qed

text \<open>
  C3. \<open>updateIdea\<close>, with any updates (also updates that carry an \<open>id\<close> or a
  \<open>createdAt\<close> key), \<open>togglePinned\<close> and \<open>toggleArchived\<close> leave the \<open>id\<close> and the
  \<open>createdAt\<close> of every entry, position by position, as they were before the call.
\<close>

theorem write_once:
  "map idea_id (updateIdea i u prev) = map idea_id prev
   \<and> map createdAt (updateIdea i u prev) = map createdAt prev
   \<and> map idea_id (togglePinned i prev) = map idea_id prev
   \<and> map createdAt (togglePinned i prev) = map createdAt prev
   \<and> map idea_id (toggleArchived i prev) = map idea_id prev
   \<and> map createdAt (toggleArchived i prev) = map createdAt prev"
  by (simp add: updateIdea_def togglePinned_def toggleArchived_def Let_def)

text \<open>
  C4. When no entry of the collection has the id given, \<open>removeIdea\<close>, \<open>updateIdea\<close>
  with any updates, \<open>togglePinned\<close> and \<open>toggleArchived\<close> return the collection they
  were given.
\<close>

theorem unknown_id_noop:
  assumes "i \<notin> idea_id ` set prev"
  shows "removeIdea i prev = prev \<and> updateIdea i u prev = prev
       \<and> togglePinned i prev = prev \<and> toggleArchived i prev = prev"
proof -
  have ne: "\<And>idea. idea \<in> set prev \<Longrightarrow> idea_id idea \<noteq> i"
    using assms by auto
  have "removeIdea i prev = prev"
    unfolding removeIdea_def using ne by (simp add: filter_id_conv)
  moreover have "updateIdea i u prev = prev"
    unfolding updateIdea_def using ne by (simp add: map_idI)
  moreover have "togglePinned i prev = prev"
    unfolding togglePinned_def using ne by (simp add: map_idI)
  moreover have "toggleArchived i prev = prev"
    unfolding toggleArchived_def using ne by (simp add: map_idI)
  ultimately show ?thesis by simp
qed

theorem unknown_id_noop_witness:
  "''zz'' \<notin> idea_id ` set [\<lparr> idea_id = ''n1'', idea_text = ''t'', category = Content,
                               isPinned = Some True, isArchived = None, createdAt = 7 \<rparr>]
   \<and> removeIdea ''zz'' [\<lparr> idea_id = ''n1'', idea_text = ''t'', category = Content,
                          isPinned = Some True, isArchived = None, createdAt = 7 \<rparr>]
     = [\<lparr> idea_id = ''n1'', idea_text = ''t'', category = Content,
          isPinned = Some True, isArchived = None, createdAt = 7 \<rparr>]
   \<and> updateIdea ''zz'' \<lparr> upd_id = None, upd_text = Some ''x'', upd_category = Some App,
                         upd_isPinned = None, upd_isArchived = None, upd_createdAt = None \<rparr>
        [\<lparr> idea_id = ''n1'', idea_text = ''t'', category = Content,
           isPinned = Some True, isArchived = None, createdAt = 7 \<rparr>]
     = [\<lparr> idea_id = ''n1'', idea_text = ''t'', category = Content,
          isPinned = Some True, isArchived = None, createdAt = 7 \<rparr>]
   \<and> togglePinned ''zz'' [\<lparr> idea_id = ''n1'', idea_text = ''t'', category = Content,
                            isPinned = Some True, isArchived = None, createdAt = 7 \<rparr>]
     = [\<lparr> idea_id = ''n1'', idea_text = ''t'', category = Content,
          isPinned = Some True, isArchived = None, createdAt = 7 \<rparr>]
   \<and> toggleArchived ''zz'' [\<lparr> idea_id = ''n1'', idea_text = ''t'', category = Content,
                              isPinned = Some True, isArchived = None, createdAt = 7 \<rparr>]
     = [\<lparr> idea_id = ''n1'', idea_text = ''t'', category = Content,
          isPinned = Some True, isArchived = None, createdAt = 7 \<rparr>]"
proof -
  have h: "''zz'' \<notin> idea_id ` set [\<lparr> idea_id = ''n1'', idea_text = ''t'', category = Content,
                               isPinned = Some True, isArchived = None, createdAt = 7 \<rparr>]"
    by simp
  show ?thesis
    using h unknown_id_noop [OF h,
      of "\<lparr> upd_id = None, upd_text = Some ''x'', upd_category = Some App,
            upd_isPinned = None, upd_isArchived = None, upd_createdAt = None \<rparr>"]
    by blast
qed

text \<open>
  C8. \<open>updateIdea\<close> does not keep the two flags apart: when the updates set
  \<open>isPinned\<close> and \<open>isArchived\<close> to true, every entry with the id given is pinned and
  archived at once afterwards, so the resulting collection breaks the rule that the
  toggle operations keep.
\<close>

theorem update_sets_both:
  assumes "k < length prev" and "idea_id (prev ! k) = i"
    and "upd_isPinned u = Some (Some True)" and "upd_isArchived u = Some (Some True)"
  shows "pinnedAndArchived (updateIdea i u prev ! k) \<and> \<not> exclusive (updateIdea i u prev)"
proof -
  have len: "k < length (updateIdea i u prev)"
    using assms(1) by (simp add: updateIdea_def)
  have both: "pinnedAndArchived (updateIdea i u prev ! k)"
    using assms by (simp add: updateIdea_def spreadUpdates_def pinnedAndArchived_def)
  from len have "updateIdea i u prev ! k \<in> set (updateIdea i u prev)"
    by (rule nth_mem)
  with both have "\<not> exclusive (updateIdea i u prev)"
    by (auto simp: exclusive_def list_all_iff)
  with both show ?thesis by simp
qed

theorem update_sets_both_witness:
  "(0::nat) < length [\<lparr> idea_id = ''n1'', idea_text = ''t'', category = App,
                        isPinned = Some False, isArchived = Some False, createdAt = 3 \<rparr>]
   \<and> idea_id ([\<lparr> idea_id = ''n1'', idea_text = ''t'', category = App,
                  isPinned = Some False, isArchived = Some False, createdAt = 3 \<rparr>] ! 0) = ''n1''
   \<and> upd_isPinned \<lparr> upd_id = None, upd_text = None, upd_category = None,
                     upd_isPinned = Some (Some True), upd_isArchived = Some (Some True),
                     upd_createdAt = None \<rparr> = Some (Some True)
   \<and> upd_isArchived \<lparr> upd_id = None, upd_text = None, upd_category = None,
                       upd_isPinned = Some (Some True), upd_isArchived = Some (Some True),
                       upd_createdAt = None \<rparr> = Some (Some True)
   \<and> exclusive [\<lparr> idea_id = ''n1'', idea_text = ''t'', category = App,
                  isPinned = Some False, isArchived = Some False, createdAt = 3 \<rparr>]
   \<and> \<not> exclusive (updateIdea ''n1''
         \<lparr> upd_id = None, upd_text = None, upd_category = None,
           upd_isPinned = Some (Some True), upd_isArchived = Some (Some True),
           upd_createdAt = None \<rparr>
         [\<lparr> idea_id = ''n1'', idea_text = ''t'', category = App,
            isPinned = Some False, isArchived = Some False, createdAt = 3 \<rparr>])"
proof -
  have h1: "(0::nat) < length [\<lparr> idea_id = ''n1'', idea_text = ''t'', category = App,
                        isPinned = Some False, isArchived = Some False, createdAt = 3 \<rparr>]"
    by simp
  have h2: "idea_id ([\<lparr> idea_id = ''n1'', idea_text = ''t'', category = App,
                  isPinned = Some False, isArchived = Some False, createdAt = 3 \<rparr>] ! 0) = ''n1''"
    by simp
  have h3: "upd_isPinned \<lparr> upd_id = None, upd_text = None, upd_category = None,
                     upd_isPinned = Some (Some True), upd_isArchived = Some (Some True),
                     upd_createdAt = None \<rparr> = Some (Some True)"
    by simp
  have h4: "upd_isArchived \<lparr> upd_id = None, upd_text = None, upd_category = None,
                       upd_isPinned = Some (Some True), upd_isArchived = Some (Some True),
                       upd_createdAt = None \<rparr> = Some (Some True)"
    by simp
  have h5: "exclusive [\<lparr> idea_id = ''n1'', idea_text = ''t'', category = App,
                  isPinned = Some False, isArchived = Some False, createdAt = 3 \<rparr>]"
    by (simp add: exclusive_def pinnedAndArchived_def)
  show ?thesis
    using h1 h2 h3 h4 h5 update_sets_both [OF h1 h2 h3 h4] by blast
qed


section \<open>Properties of the hydration\<close>

lemma decimal_chars: "c \<in> set (decimal n) \<Longrightarrow> (of_char c :: nat) < 58"
proof (induction n arbitrary: c rule: decimal.induct)
  case (1 n)
  show ?case
  proof (cases "n < 10")
    case True
    with "1.prems" show ?thesis
      by (simp add: decimal.simps [of n])
  next
    case False
    with "1.prems" have "c \<in> set (decimal (n div 10)) \<or> c = char_of (48 + n mod 10)"
      by (auto simp: decimal.simps [of n])
    then show ?thesis
    proof
      assume "c \<in> set (decimal (n div 10))"
      with False "1.IH" show ?thesis by simp
    next
      assume c: "c = char_of (48 + n mod 10)"
      have "(48 + n mod 10) mod 256 = 48 + n mod 10"
        by (rule mod_less) arith
      moreover have "n mod 10 < 10" by simp
      ultimately show ?thesis using c by simp
    qed
  qed
qed

lemma decimal_not_flag: "decimal n \<noteq> ''isPinned''" "decimal n \<noteq> ''isArchived''"
proof -
  have "(of_char CHR ''i'' :: nat) = 105" by simp
  then have no: "CHR ''i'' \<notin> set (decimal n)"
    using decimal_chars [of "CHR ''i''" n] by auto
  show "decimal n \<noteq> ''isPinned''" using no by auto
  show "decimal n \<noteq> ''isArchived''" using no by auto
qed

lemma flag_not_key:
  assumes "\<And>n. decimal n \<noteq> k"
  shows "map_of (zip (map decimal [0..<m]) xs) k = None"
proof -
  have "k \<notin> fst ` set (zip (map decimal [0..<m]) xs)"
  proof
    assume "k \<in> fst ` set (zip (map decimal [0..<m]) xs)"
    then obtain v where "(k, v) \<in> set (zip (map decimal [0..<m]) xs)"
      by auto
    then have "k \<in> set (map decimal [0..<m])"
      by (rule in_set_zipE)
    then obtain n where "decimal n = k"
      by (auto simp del: upt_Suc)
    with assms show False by blast
  qed
  then show ?thesis
    by (simp add: map_of_eq_None_iff)
qed

lemma flag_not_index:
  "map_of (zip (map decimal [0..<m]) xs) ''isPinned'' = None"
  "map_of (zip (map decimal [0..<m]) xs) ''isArchived'' = None"
  by (rule flag_not_key, rule decimal_not_flag)+

lemma getProp_fieldOf:
  "e \<noteq> JNull \<Longrightarrow> getProp e ''isPinned'' = Inr (fieldOf e ''isPinned'')"
  "e \<noteq> JNull \<Longrightarrow> getProp e ''isArchived'' = Inr (fieldOf e ''isArchived'')"
  by (cases e; simp add: fieldOf_def flag_not_index)+

lemma normalizeIdea_normalizedIdea:
  "e \<noteq> JNull \<Longrightarrow> normalizeIdea e = Inr (normalizedIdea e)"
  by (simp add: normalizeIdea_def normalizedIdea_def getProp_fieldOf)

lemma normalizeIdea_null: "normalizeIdea JNull = Inl TypeError"
  by (simp add: normalizeIdea_def)

lemma mapThrowing_total:
  "\<forall>x\<in>set xs. f x = Inr (g x) \<Longrightarrow> mapThrowing f xs = Inr (map g xs)"
  by (induction xs) simp_all

lemma loadIdeas_array:
  assumes "JNull \<notin> set es" and "isMounted s"
  shows "ideas (loadIdeas (Inr (Some (Wellformed (JArr es)))) s) = map normalizedIdea es"
proof -
  have "\<forall>e\<in>set es. normalizeIdea e = Inr (normalizedIdea e)"
    using assms(1) by (auto intro: normalizeIdea_normalizedIdea)
  then have "mapThrowing normalizeIdea es = Inr (map normalizedIdea es)"
    by (rule mapThrowing_total)
  with assms(2) show ?thesis
    by (simp add: loadIdeas_def loadIdeasTry_def setIdeas_def)
qed

lemma fieldOf_normalizedIdea:
  "fieldOf (normalizedIdea e) key =
     (if key = ''isPinned'' \<or> key = ''isArchived'' then Some (nullishFalse (fieldOf e key))
      else fieldOf e key)"
  by (simp add: normalizedIdea_def fieldOf_def update_conv')

text \<open>
  C5. Hydration migrates on read: when the stored text is an array none of whose
  elements is \<open>null\<close> (so every array of entries) and the provider is mounted, the
  loaded collection has an entry for every stored one, and a stored entry that lacks
  the \<open>isPinned\<close> key, or the \<open>isArchived\<close> key, is loaded with that flag false.
\<close>

theorem hydration_defaults_flags:
  assumes "JNull \<notin> set es" and "isMounted s" and "k < length es"
  shows "length (ideas (loadIdeas (Inr (Some (Wellformed (JArr es)))) s)) = length es
       \<and> (fieldOf (es ! k) ''isPinned'' = None \<longrightarrow>
            fieldOf (ideas (loadIdeas (Inr (Some (Wellformed (JArr es)))) s) ! k) ''isPinned''
              = Some (JBool False))
       \<and> (fieldOf (es ! k) ''isArchived'' = None \<longrightarrow>
            fieldOf (ideas (loadIdeas (Inr (Some (Wellformed (JArr es)))) s) ! k) ''isArchived''
              = Some (JBool False))"
  using assms by (simp add: loadIdeas_array fieldOf_normalizedIdea)

text \<open>The legacy migration: an entry of the earlier shape, with \<open>isOutside\<close> and no flags.\<close>

theorem hydration_defaults_flags_witness:
  "JNull \<notin> set [JObj [(''id'', JStr ''1-a''), (''text'', JStr ''old''), (''category'', JStr ''App''),
                       (''isOutside'', JBool True), (''createdAt'', JNum 100)]]
   \<and> isMounted initialProvider
   \<and> (0::nat) < length [JObj [(''id'', JStr ''1-a''), (''text'', JStr ''old''),
                               (''category'', JStr ''App''), (''isOutside'', JBool True),
                               (''createdAt'', JNum 100)]]
   \<and> fieldOf (JObj [(''id'', JStr ''1-a''), (''text'', JStr ''old''), (''category'', JStr ''App''),
                     (''isOutside'', JBool True), (''createdAt'', JNum 100)] ) ''isPinned'' = None
   \<and> fieldOf (JObj [(''id'', JStr ''1-a''), (''text'', JStr ''old''), (''category'', JStr ''App''),
                     (''isOutside'', JBool True), (''createdAt'', JNum 100)] ) ''isArchived'' = None
   \<and> fieldOf (ideas (loadIdeas (Inr (Some (Wellformed (JArr
         [JObj [(''id'', JStr ''1-a''), (''text'', JStr ''old''), (''category'', JStr ''App''),
                (''isOutside'', JBool True), (''createdAt'', JNum 100)]]))))
         initialProvider) ! 0) ''isPinned'' = Some (JBool False)
   \<and> fieldOf (ideas (loadIdeas (Inr (Some (Wellformed (JArr
         [JObj [(''id'', JStr ''1-a''), (''text'', JStr ''old''), (''category'', JStr ''App''),
                (''isOutside'', JBool True), (''createdAt'', JNum 100)]]))))
         initialProvider) ! 0) ''isArchived'' = Some (JBool False)"
proof -
  have h1: "JNull \<notin> set [JObj [(''id'', JStr ''1-a''), (''text'', JStr ''old''),
                                (''category'', JStr ''App''), (''isOutside'', JBool True),
                                (''createdAt'', JNum 100)]]"
    by simp
  have h2: "isMounted initialProvider"
    by (simp add: initialProvider_def)
  have h3: "(0::nat) < length [JObj [(''id'', JStr ''1-a''), (''text'', JStr ''old''),
                               (''category'', JStr ''App''), (''isOutside'', JBool True),
                               (''createdAt'', JNum 100)]]"
    by simp
  have h4: "fieldOf (JObj [(''id'', JStr ''1-a''), (''text'', JStr ''old''),
                     (''category'', JStr ''App''), (''isOutside'', JBool True),
                     (''createdAt'', JNum 100)]) ''isPinned'' = None"
    by (simp add: fieldOf_def)
  have h5: "fieldOf (JObj [(''id'', JStr ''1-a''), (''text'', JStr ''old''),
                     (''category'', JStr ''App''), (''isOutside'', JBool True),
                     (''createdAt'', JNum 100)]) ''isArchived'' = None"
    by (simp add: fieldOf_def)
  show ?thesis
    using h1 h2 h3 h4 h5 hydration_defaults_flags [OF h1 h2 h3] by simp
qed

text \<open>
  C10, as stated, fails on a flag that is present and holds \<open>null\<close>: the stored entry
  \<^verbatim>\<open>{"id": "n1", "isPinned": null}\<close> has the key \<open>isPinned\<close> with the value \<open>null\<close>
  and is loaded with \<open>isPinned\<close> false, since \<open>??\<close> replaces \<open>null\<close> as it replaces
  \<open>undefined\<close>.
\<close>

theorem hydration_null_flag_counterexample:
  "fieldOf (JObj [(''id'', JStr ''n1''), (''isPinned'', JNull)]) ''isPinned'' = Some JNull
   \<and> fieldOf (ideas (loadIdeas
        (Inr (Some (Wellformed (JArr [JObj [(''id'', JStr ''n1''), (''isPinned'', JNull)]]))))
        initialProvider) ! 0) ''isPinned'' = Some (JBool False)"
  by (simp add: fieldOf_def loadIdeas_def loadIdeasTry_def setIdeas_def initialProvider_def
      normalizeIdea_def)

text \<open>
  C10, amended. When the stored text is an array none of whose elements is \<open>null\<close>
  and the provider is mounted, the loaded collection has the same number of entries
  in the same order; every key other than \<open>isPinned\<close> and \<open>isArchived\<close> has in the
  loaded entry the value it has in the stored one, and is absent where it is absent
  there; \<open>isPinned\<close> and \<open>isArchived\<close> keep their stored value, except that a flag
  that is absent or holds \<open>null\<close> is loaded as false.
\<close>

theorem hydration_frame:
  assumes "JNull \<notin> set es" and "isMounted s" and "k < length es"
  shows "length (ideas (loadIdeas (Inr (Some (Wellformed (JArr es)))) s)) = length es
       \<and> fieldOf (ideas (loadIdeas (Inr (Some (Wellformed (JArr es)))) s) ! k) key =
           (if key = ''isPinned'' \<or> key = ''isArchived''
            then Some (nullishFalse (fieldOf (es ! k) key))
            else fieldOf (es ! k) key)"
  using assms by (simp add: loadIdeas_array fieldOf_normalizedIdea)

theorem hydration_frame_witness:
  "JNull \<notin> set [JObj [(''id'', JStr ''1-a''), (''isOutside'', JBool True), (''isPinned'', JBool True)],
                 JObj [(''id'', JStr ''2-b''), (''createdAt'', JNum 200)]]
   \<and> isMounted initialProvider
   \<and> (1::nat) < length [JObj [(''id'', JStr ''1-a''), (''isOutside'', JBool True),
                               (''isPinned'', JBool True)],
                         JObj [(''id'', JStr ''2-b''), (''createdAt'', JNum 200)]]
   \<and> length (ideas (loadIdeas (Inr (Some (Wellformed (JArr
         [JObj [(''id'', JStr ''1-a''), (''isOutside'', JBool True), (''isPinned'', JBool True)],
          JObj [(''id'', JStr ''2-b''), (''createdAt'', JNum 200)]]))))
         initialProvider)) = 2
   \<and> fieldOf (ideas (loadIdeas (Inr (Some (Wellformed (JArr
         [JObj [(''id'', JStr ''1-a''), (''isOutside'', JBool True), (''isPinned'', JBool True)],
          JObj [(''id'', JStr ''2-b''), (''createdAt'', JNum 200)]]))))
         initialProvider) ! 1) ''createdAt'' = Some (JNum 200)"
proof -
  have h1: "JNull \<notin> set [JObj [(''id'', JStr ''1-a''), (''isOutside'', JBool True),
                                (''isPinned'', JBool True)],
                          JObj [(''id'', JStr ''2-b''), (''createdAt'', JNum 200)]]"
    by simp
  have h2: "isMounted initialProvider"
    by (simp add: initialProvider_def)
  have h3: "(1::nat) < length [JObj [(''id'', JStr ''1-a''), (''isOutside'', JBool True),
                               (''isPinned'', JBool True)],
                         JObj [(''id'', JStr ''2-b''), (''createdAt'', JNum 200)]]"
    by simp
  show ?thesis
    using h1 h2 h3 hydration_frame [OF h1 h2 h3, of "''createdAt''"]
    by (simp add: fieldOf_def)
qed

section \<open>Properties of the provider's lifecycle\<close>

lemma hasHydrated_autosave [simp]: "hasHydrated (autosave s) = hasHydrated s"
  by (simp add: autosave_def)

lemma hasHydrated_loadIdeas [simp]: "hasHydrated (loadIdeas got s)"
  by (simp add: loadIdeas_def)

lemma hasHydrated_step:
  "hasHydrated (step e s) \<longleftrightarrow> hasHydrated s \<or> (\<exists>got. e = LoadFinished got)"
  by (cases e) (simp_all add: setIdeas_def)

lemma hasHydrated_run:
  "hasHydrated (run evs s) \<longleftrightarrow> hasHydrated s \<or> (\<exists>got. LoadFinished got \<in> set evs)"
  unfolding run_def
  by (induction evs arbitrary: s) (auto simp: hasHydrated_step)

lemma setItemCalls_loadIdeas [simp]: "setItemCalls (loadIdeas got s) = setItemCalls s"
  by (simp add: loadIdeas_def loadIdeasTry_def setIdeas_def
      split: sum.splits option.splits)

lemma write_needs_hydrated:
  "setItemCalls (step e s) \<noteq> setItemCalls s \<Longrightarrow> hasHydrated s"
  by (cases e) (auto simp: autosave_def setIdeas_def split: if_splits)

lemma unhydrated_step:
  "\<not> hasHydrated (step e s) \<Longrightarrow> setItemCalls (step e s) = setItemCalls s"
  by (cases e) (auto simp: autosave_def setIdeas_def split: if_splits)

lemma unhydrated_run:
  "\<not> hasHydrated (run evs s) \<Longrightarrow> setItemCalls (run evs s) = setItemCalls s"
proof (induction evs arbitrary: s)
  case Nil
  then show ?case by (simp add: run_def)
next
  case (Cons e evs)
  from Cons.prems have nh: "\<not> hasHydrated (run evs (step e s))"
    by (simp add: run_def)
  then have "\<not> hasHydrated (step e s)"
    by (simp add: hasHydrated_run)
  then have "setItemCalls (step e s) = setItemCalls s"
    by (rule unhydrated_step)
  moreover have "setItemCalls (run evs (step e s)) = setItemCalls (step e s)"
    using nh by (rule Cons.IH)
  ultimately show ?case by (simp add: run_def)
qed

lemma change_is_saved:
  "hasHydrated s \<Longrightarrow> isMounted s \<Longrightarrow>
   setItemCalls (run [SetIdeas f, Commit] s) = setItemCalls s @ [(STORAGE_KEY, f (ideas s))]"
  by (simp add: run_def setIdeas_def autosave_def)

text \<open>
  C9. From the initial state, as long as the load has not finished \<open>hasHydrated\<close> is
  false and \<open>setItem\<close> has not been called; in every state reached with
  \<open>hasHydrated\<close> false no call of \<open>setItem\<close> has been made; a step that calls
  \<open>setItem\<close> starts in a state where \<open>hasHydrated\<close> is true. Once \<open>hasHydrated\<close> is
  true (and the provider is mounted), a change of the collection followed by the
  commit of its render makes exactly one call of \<open>setItem\<close>, with the fixed storage
  key and the whole new collection.
\<close>

theorem no_write_before_hydration:
  "((\<forall>got. LoadFinished got \<notin> set evs) \<longrightarrow>
      \<not> hasHydrated (run evs initialProvider) \<and> setItemCalls (run evs initialProvider) = [])
   \<and> (\<not> hasHydrated (run evs initialProvider) \<longrightarrow> setItemCalls (run evs initialProvider) = [])
   \<and> (setItemCalls (step e s) \<noteq> setItemCalls s \<longrightarrow> hasHydrated s)
   \<and> (hasHydrated s \<and> isMounted s \<longrightarrow>
        setItemCalls (run [SetIdeas f, Commit] s)
          = setItemCalls s @ [(STORAGE_KEY, f (ideas s))])"
proof -
  have init: "\<not> hasHydrated initialProvider" "setItemCalls initialProvider = []"
    by (simp_all add: initialProvider_def)
  have a: "\<not> hasHydrated (run evs initialProvider) \<longrightarrow> setItemCalls (run evs initialProvider) = []"
    using unhydrated_run [of evs initialProvider] init by simp
  have b: "(\<forall>got. LoadFinished got \<notin> set evs) \<longrightarrow> \<not> hasHydrated (run evs initialProvider)"
    using init by (simp add: hasHydrated_run)
  show ?thesis
    using a b write_needs_hydrated [of e s] change_is_saved [of s f] by blast
qed

text \<open>
  An idea is added while the load is still running: nothing is written. The load
  then finds no stored item, and the next idea added is written with the whole
  collection.
\<close>

theorem no_write_before_hydration_witness:
  "(\<forall>got. LoadFinished got \<notin> set [Commit, SetIdeas (\<lambda>prev. prev @ [JObj [(''id'', JStr ''first'')]]), Commit])
   \<and> \<not> hasHydrated (run [Commit, SetIdeas (\<lambda>prev. prev @ [JObj [(''id'', JStr ''first'')]]), Commit] initialProvider)
   \<and> setItemCalls (run [Commit, SetIdeas (\<lambda>prev. prev @ [JObj [(''id'', JStr ''first'')]]), Commit] initialProvider) = []
   \<and> hasHydrated (run [Commit, SetIdeas (\<lambda>prev. prev @ [JObj [(''id'', JStr ''first'')]]), Commit,
                        LoadFinished (Inr None)] initialProvider)
   \<and> isMounted (run [Commit, SetIdeas (\<lambda>prev. prev @ [JObj [(''id'', JStr ''first'')]]), Commit,
                      LoadFinished (Inr None)] initialProvider)
   \<and> setItemCalls (step Commit (run [Commit, SetIdeas (\<lambda>prev. prev @ [JObj [(''id'', JStr ''first'')]]), Commit,
                      LoadFinished (Inr None), SetIdeas (\<lambda>prev. prev @ [JObj [(''id'', JStr ''second'')]])]
                      initialProvider))
       \<noteq> setItemCalls (run [Commit, SetIdeas (\<lambda>prev. prev @ [JObj [(''id'', JStr ''first'')]]), Commit,
                      LoadFinished (Inr None), SetIdeas (\<lambda>prev. prev @ [JObj [(''id'', JStr ''second'')]])]
                      initialProvider)
   \<and> setItemCalls (run [SetIdeas (\<lambda>prev. prev @ [JObj [(''id'', JStr ''second'')]]), Commit]
        (run [Commit, SetIdeas (\<lambda>prev. prev @ [JObj [(''id'', JStr ''first'')]]), Commit,
              LoadFinished (Inr None)] initialProvider))
     = [(''idea-notes:ideas:v1'', [JObj [(''id'', JStr ''first'')], JObj [(''id'', JStr ''second'')]])]"
proof -
  have h1: "\<forall>got. LoadFinished got \<notin> set [Commit, SetIdeas (\<lambda>prev. prev @ [JObj [(''id'', JStr ''first'')]]), Commit]"
    by simp
  have h2: "hasHydrated (run [Commit, SetIdeas (\<lambda>prev. prev @ [JObj [(''id'', JStr ''first'')]]), Commit,
                        LoadFinished (Inr None)] initialProvider)"
    by (simp add: run_def)
  have h3: "isMounted (run [Commit, SetIdeas (\<lambda>prev. prev @ [JObj [(''id'', JStr ''first'')]]), Commit,
                      LoadFinished (Inr None)] initialProvider)"
    by (simp add: run_def initialProvider_def setIdeas_def autosave_def loadIdeas_def
        loadIdeasTry_def)
  have h4: "setItemCalls (step Commit (run [Commit, SetIdeas (\<lambda>prev. prev @ [JObj [(''id'', JStr ''first'')]]), Commit,
                      LoadFinished (Inr None), SetIdeas (\<lambda>prev. prev @ [JObj [(''id'', JStr ''second'')]])]
                      initialProvider))
       \<noteq> setItemCalls (run [Commit, SetIdeas (\<lambda>prev. prev @ [JObj [(''id'', JStr ''first'')]]), Commit,
                      LoadFinished (Inr None), SetIdeas (\<lambda>prev. prev @ [JObj [(''id'', JStr ''second'')]])]
                      initialProvider)"
    by (simp add: run_def initialProvider_def setIdeas_def autosave_def loadIdeas_def
        loadIdeasTry_def)
  have v: "setItemCalls (run [Commit, SetIdeas (\<lambda>prev. prev @ [JObj [(''id'', JStr ''first'')]]), Commit,
              LoadFinished (Inr None)] initialProvider) = []
         \<and> ideas (run [Commit, SetIdeas (\<lambda>prev. prev @ [JObj [(''id'', JStr ''first'')]]), Commit,
              LoadFinished (Inr None)] initialProvider) = [JObj [(''id'', JStr ''first'')]]"
    by (simp add: run_def initialProvider_def setIdeas_def autosave_def loadIdeas_def
        loadIdeasTry_def)
  show ?thesis
    using h1 h2 h3 h4 v
      no_write_before_hydration [of "[Commit, SetIdeas (\<lambda>prev. prev @ [JObj [(''id'', JStr ''first'')]]), Commit]"
        Commit
        "run [Commit, SetIdeas (\<lambda>prev. prev @ [JObj [(''id'', JStr ''first'')]]), Commit,
              LoadFinished (Inr None), SetIdeas (\<lambda>prev. prev @ [JObj [(''id'', JStr ''second'')]])] initialProvider"
        ]
      no_write_before_hydration [of "[]" Commit
        "run [Commit, SetIdeas (\<lambda>prev. prev @ [JObj [(''id'', JStr ''first'')]]), Commit,
              LoadFinished (Inr None)] initialProvider"
        "\<lambda>prev. prev @ [JObj [(''id'', JStr ''second'')]]"]
    by (simp add: STORAGE_KEY_def)
qed


section \<open>Properties of the inbox projection\<close>

subsection \<open>Text search\<close>

lemma includesStr_sublist: "includesStr s q \<longleftrightarrow> sublist q s"
proof (induction s)
  case Nil
  then show ?case by simp
next
  case (Cons c cs)
  have "take (length q) (c # cs) = q \<longleftrightarrow> prefix q (c # cs)"
    by (metis prefix_def append_take_drop_id append_eq_conv_conj)
  with Cons show ?case
    by (auto simp: sublist_Cons_right)
qed

lemma trim_empty_iff: "trim s = [] \<longleftrightarrow> list_all isSpace s"
proof
  assume "trim s = []"
  then have all: "\<forall>x\<in>set (dropWhile isSpace s). isSpace x"
    by (simp add: trim_def dropWhile_eq_Nil_conv)
  have "dropWhile isSpace s = []"
  proof (rule ccontr)
    assume ne: "dropWhile isSpace s \<noteq> []"
    then have "\<not> isSpace (hd (dropWhile isSpace s))"
      by (rule hd_dropWhile)
    moreover from ne have "hd (dropWhile isSpace s) \<in> set (dropWhile isSpace s)"
      by (rule hd_in_set)
    ultimately show False using all by blast
  qed
  then have "\<forall>x\<in>set s. isSpace x"
    using dropWhile_eq_Nil_conv [of isSpace s] by blast
  then show "list_all isSpace s"
    by (simp add: list_all_iff)
next
  assume "list_all isSpace s"
  then have "\<forall>x\<in>set s. isSpace x"
    by (simp add: list_all_iff)
  then have d: "dropWhile isSpace s = []"
    using dropWhile_eq_Nil_conv [of isSpace s] by blast
  show "trim s = []"
    unfolding trim_def d by simp
qed

text \<open>
  C6. The search step returns the list it was given when the query is empty or all
  white space. Otherwise it keeps, in their order, exactly the entries whose text,
  lowercased and with every run of white space collapsed to one space, has the
  trimmed, lowercased and collapsed query as a contiguous part. An entry with the
  text \<open>please buy milk today\<close> is kept for the query \<open>Buy  milk\<close> and dropped for
  the query \<open>milkshake\<close>.
\<close>

theorem search_keeps_matches:
  "searchFilter q xs =
     (if list_all isSpace q then xs
      else filter (\<lambda>item. sublist (collapseSpaces (toLowerCase (trim q)))
                                   (collapseSpaces (toLowerCase (idea_text item)))) xs)
   \<and> (idea_text item = ''please buy milk today'' \<longrightarrow>
        searchFilter ''Buy  milk'' [item] = [item] \<and> searchFilter ''milkshake'' [item] = [])"
proof -
  have general: "searchFilter q xs =
     (if list_all isSpace q then xs
      else filter (\<lambda>item. sublist (collapseSpaces (toLowerCase (trim q)))
                                   (collapseSpaces (toLowerCase (idea_text item)))) xs)"
    by (simp add: searchFilter_def trim_empty_iff includesStr_sublist Let_def)
  have t: "collapseSpaces (toLowerCase ''please buy milk today'') = ''please buy milk today''"
    by code_simp
  have q1: "collapseSpaces (toLowerCase (trim ''Buy  milk'')) = ''buy milk''"
    by code_simp
  have q2: "collapseSpaces (toLowerCase (trim ''milkshake'')) = ''milkshake''"
    by code_simp
  have n1: "trim ''Buy  milk'' \<noteq> []" by code_simp
  have n2: "trim ''milkshake'' \<noteq> []" by code_simp
  have i1: "includesStr ''please buy milk today'' ''buy milk''" by code_simp
  have i2: "\<not> includesStr ''please buy milk today'' ''milkshake''" by code_simp
  have "idea_text item = ''please buy milk today'' \<longrightarrow>
        searchFilter ''Buy  milk'' [item] = [item] \<and> searchFilter ''milkshake'' [item] = []"
    using t q1 q2 n1 n2 i1 i2 by (simp add: searchFilter_def Let_def)
  with general show ?thesis by blast
qed

theorem search_keeps_matches_witness:
  "list_all isSpace [CHR '' '', CHR 0x09]
   \<and> searchFilter [CHR '' '', CHR 0x09]
        [\<lparr> idea_id = ''n1'', idea_text = ''please buy milk today'', category = Random,
           isPinned = Some False, isArchived = Some False, createdAt = 1 \<rparr>]
     = [\<lparr> idea_id = ''n1'', idea_text = ''please buy milk today'', category = Random,
          isPinned = Some False, isArchived = Some False, createdAt = 1 \<rparr>]
   \<and> idea_text \<lparr> idea_id = ''n1'', idea_text = ''please buy milk today'', category = Random,
                  isPinned = Some False, isArchived = Some False, createdAt = 1 \<rparr>
       = ''please buy milk today''
   \<and> searchFilter ''Buy  milk''
        [\<lparr> idea_id = ''n1'', idea_text = ''please buy milk today'', category = Random,
           isPinned = Some False, isArchived = Some False, createdAt = 1 \<rparr>]
     = [\<lparr> idea_id = ''n1'', idea_text = ''please buy milk today'', category = Random,
          isPinned = Some False, isArchived = Some False, createdAt = 1 \<rparr>]
   \<and> searchFilter ''milkshake''
        [\<lparr> idea_id = ''n1'', idea_text = ''please buy milk today'', category = Random,
           isPinned = Some False, isArchived = Some False, createdAt = 1 \<rparr>]
     = []"
proof -
  have h1: "list_all isSpace [CHR '' '', CHR 0x09]"
    by code_simp
  have h2: "idea_text \<lparr> idea_id = ''n1'', idea_text = ''please buy milk today'',
                        category = Random, isPinned = Some False, isArchived = Some False,
                        createdAt = 1 \<rparr> = ''please buy milk today''"
    by simp
  show ?thesis
    using h1 h2
      search_keeps_matches [of "[CHR '' '', CHR 0x09]"
        "[\<lparr> idea_id = ''n1'', idea_text = ''please buy milk today'', category = Random,
            isPinned = Some False, isArchived = Some False, createdAt = 1 \<rparr>]"
        "\<lparr> idea_id = ''n1'', idea_text = ''please buy milk today'', category = Random,
           isPinned = Some False, isArchived = Some False, createdAt = 1 \<rparr>"]
    by simp
qed

subsection \<open>Sort\<close>

lemma insertBy_newest:
  "insertBy (compareCreatedAt Newest) x ys = insort_key (\<lambda>idea. - createdAt idea) x ys"
  by (induction ys) (auto simp: compareCreatedAt_def)

lemma insertBy_oldest:
  "insertBy (compareCreatedAt Oldest) x ys = insort_key createdAt x ys"
  by (induction ys) (auto simp: compareCreatedAt_def)

lemma sortIdeas_newest: "sortIdeas Newest xs = sort_key (\<lambda>idea. - createdAt idea) xs"
  by (induction xs) (simp_all add: sortIdeas_def arraySort_def insertBy_newest)

lemma sortIdeas_oldest: "sortIdeas Oldest xs = sort_key createdAt xs"
  by (induction xs) (simp_all add: sortIdeas_def arraySort_def insertBy_oldest)

lemma descending_newest:
  "sorted_wrt (\<lambda>a b. createdAt a \<ge> createdAt b) (sortIdeas Newest xs)"
proof -
  have "sorted (map (\<lambda>idea. - createdAt idea) (sortIdeas Newest xs))"
    by (simp add: sortIdeas_newest)
  then show ?thesis
    by (simp add: sorted_map sorted_wrt_iff_nth_less)
qed

lemma ascending_oldest:
  "sorted_wrt (\<lambda>a b. createdAt a \<le> createdAt b) (sortIdeas Oldest xs)"
proof -
  have "sorted (map createdAt (sortIdeas Oldest xs))"
    by (simp add: sortIdeas_oldest)
  then show ?thesis
    by (simp add: sorted_map)
qed

lemma sortIdeas_stable:
  "filter (\<lambda>idea. createdAt idea = t) (sortIdeas ord xs) = filter (\<lambda>idea. createdAt idea = t) xs"
proof (cases ord)
  case Newest
  have "filter (\<lambda>idea. - createdAt idea = - t) (sort_key (\<lambda>idea. - createdAt idea) xs)
        = filter (\<lambda>idea. - createdAt idea = - t) xs"
    by (rule sort_key_stable)
  with Newest show ?thesis by (simp add: sortIdeas_newest)
next
  case Oldest
  then show ?thesis by (simp add: sortIdeas_oldest sort_key_stable)
qed

lemma mset_sortIdeas: "mset (sortIdeas ord xs) = mset xs"
  by (cases ord) (simp_all add: sortIdeas_newest sortIdeas_oldest)

text \<open>
  C7. The sort step orders the entries by \<open>createdAt\<close>, descending for \<open>newest\<close> and
  ascending for \<open>oldest\<close>; it returns the entries it was given, each as often as it
  was given; and it is stable: the entries with any one \<open>createdAt\<close> come out in the
  order they went in. For A and B created at 100 and C created at 200, given in the
  order A, B, C, \<open>newest\<close> yields C, A, B and \<open>oldest\<close> yields A, B, C.
\<close>

theorem sort_by_createdAt_stable:
  "sorted_wrt (\<lambda>a b. createdAt a \<ge> createdAt b) (sortIdeas Newest xs)
   \<and> sorted_wrt (\<lambda>a b. createdAt a \<le> createdAt b) (sortIdeas Oldest xs)
   \<and> mset (sortIdeas ord xs) = mset xs
   \<and> filter (\<lambda>idea. createdAt idea = t) (sortIdeas ord xs) = filter (\<lambda>idea. createdAt idea = t) xs
   \<and> (createdAt a = 100 \<and> createdAt b = 100 \<and> createdAt c = 200 \<longrightarrow>
        sortIdeas Newest [a, b, c] = [c, a, b] \<and> sortIdeas Oldest [a, b, c] = [a, b, c])"
proof -
  have "createdAt a = 100 \<and> createdAt b = 100 \<and> createdAt c = 200 \<longrightarrow>
        sortIdeas Newest [a, b, c] = [c, a, b] \<and> sortIdeas Oldest [a, b, c] = [a, b, c]"
    by (simp add: sortIdeas_def arraySort_def compareCreatedAt_def)
  then show ?thesis
    using descending_newest ascending_oldest mset_sortIdeas sortIdeas_stable by blast
qed

theorem sort_by_createdAt_stable_witness:
  "createdAt \<lparr> idea_id = ''A'', idea_text = ''a'', category = App,
                isPinned = Some False, isArchived = Some False, createdAt = 100 \<rparr> = 100
   \<and> createdAt \<lparr> idea_id = ''B'', idea_text = ''b'', category = Content,
                  isPinned = Some False, isArchived = Some False, createdAt = 100 \<rparr> = 100
   \<and> createdAt \<lparr> idea_id = ''C'', idea_text = ''c'', category = Random,
                  isPinned = Some False, isArchived = Some False, createdAt = 200 \<rparr> = 200
   \<and> sortIdeas Newest
        [\<lparr> idea_id = ''A'', idea_text = ''a'', category = App,
           isPinned = Some False, isArchived = Some False, createdAt = 100 \<rparr>,
         \<lparr> idea_id = ''B'', idea_text = ''b'', category = Content,
           isPinned = Some False, isArchived = Some False, createdAt = 100 \<rparr>,
         \<lparr> idea_id = ''C'', idea_text = ''c'', category = Random,
           isPinned = Some False, isArchived = Some False, createdAt = 200 \<rparr>]
     = [\<lparr> idea_id = ''C'', idea_text = ''c'', category = Random,
          isPinned = Some False, isArchived = Some False, createdAt = 200 \<rparr>,
        \<lparr> idea_id = ''A'', idea_text = ''a'', category = App,
          isPinned = Some False, isArchived = Some False, createdAt = 100 \<rparr>,
        \<lparr> idea_id = ''B'', idea_text = ''b'', category = Content,
          isPinned = Some False, isArchived = Some False, createdAt = 100 \<rparr>]
   \<and> sortIdeas Oldest
        [\<lparr> idea_id = ''A'', idea_text = ''a'', category = App,
           isPinned = Some False, isArchived = Some False, createdAt = 100 \<rparr>,
         \<lparr> idea_id = ''B'', idea_text = ''b'', category = Content,
           isPinned = Some False, isArchived = Some False, createdAt = 100 \<rparr>,
         \<lparr> idea_id = ''C'', idea_text = ''c'', category = Random,
           isPinned = Some False, isArchived = Some False, createdAt = 200 \<rparr>]
     = [\<lparr> idea_id = ''A'', idea_text = ''a'', category = App,
          isPinned = Some False, isArchived = Some False, createdAt = 100 \<rparr>,
        \<lparr> idea_id = ''B'', idea_text = ''b'', category = Content,
          isPinned = Some False, isArchived = Some False, createdAt = 100 \<rparr>,
        \<lparr> idea_id = ''C'', idea_text = ''c'', category = Random,
          isPinned = Some False, isArchived = Some False, createdAt = 200 \<rparr>]"
proof -
  have h: "createdAt \<lparr> idea_id = ''A'', idea_text = ''a'', category = App,
                isPinned = Some False, isArchived = Some False, createdAt = 100 \<rparr> = 100
   \<and> createdAt \<lparr> idea_id = ''B'', idea_text = ''b'', category = Content,
                  isPinned = Some False, isArchived = Some False, createdAt = 100 \<rparr> = 100
   \<and> createdAt \<lparr> idea_id = ''C'', idea_text = ''c'', category = Random,
                  isPinned = Some False, isArchived = Some False, createdAt = 200 \<rparr> = 200"
    by simp
  show ?thesis
    using h sort_by_createdAt_stable
      [where a = "\<lparr> idea_id = ''A'', idea_text = ''a'', category = App,
                     isPinned = Some False, isArchived = Some False, createdAt = 100 \<rparr>"
         and b = "\<lparr> idea_id = ''B'', idea_text = ''b'', category = Content,
                     isPinned = Some False, isArchived = Some False, createdAt = 100 \<rparr>"
         and c = "\<lparr> idea_id = ''C'', idea_text = ''c'', category = Random,
                     isPinned = Some False, isArchived = Some False, createdAt = 200 \<rparr>"
         and xs = "[]" and ord = Newest and t = 0]
    by blast
qed

end
